theory Spec2Isabelle
  imports Main
begin

section \<open>The node record and its modifiers (node.go)\<close>

text \<open>
  The file declares the struct \<^verbatim>\<open>node\<close>, two read-only methods on \<^verbatim>\<open>*node\<close>
  (\<^verbatim>\<open>pathName\<close>, \<^verbatim>\<open>source\<close>), the interface \<^verbatim>\<open>Value\<close>, the function type
  \<^verbatim>\<open>OptNode = func(*node)\<close> and four constructors of modifiers
  (\<^verbatim>\<open>Alias\<close>, \<^verbatim>\<open>Secret\<close>, \<^verbatim>\<open>Group\<close>, \<^verbatim>\<open>Required\<close>).

  Go strings are byte sequences, modelled as \<^typ>\<open>string\<close>; a slice of strings is a list,
  and \<^verbatim>\<open>append(s, x)\<close> is \<open>s @ [x]\<close> (a nil slice is the empty list).
  The interface value held in the field \<^verbatim>\<open>Value\<close> is never inspected by this file, so
  its type is a parameter \<open>'v\<close>.

  Every function here receives the node through a pointer. A pointer is modelled as an
  \<^typ>\<open>'a option\<close>: \<open>None\<close> is the nil pointer, \<open>Some n\<close> points to a node in state \<open>n\<close>.
  Reading or writing a field through nil panics; the panic is a value of the model.
  A call returns what Go returns together with the state in which it leaves the node.
\<close>

datatype panic = NilDereference

record 'v node =
  Name :: string
  Description :: string
  Aliases :: "string list"
  Value :: 'v
  setSource :: string
  isSecret :: bool
  isRequired :: bool
  caller :: string

definition noSource :: string where
  "noSource = ''default''"

text \<open>\<^verbatim>\<open>func (n *node) pathName() string\<close>: the result and the node as the call leaves it.\<close>

definition pathName :: "'v node option \<Rightarrow> panic + string \<times> 'v node" where
  "pathName p =
     (case p of
        None \<Rightarrow> Inl NilDereference
      | Some n \<Rightarrow>
          if caller n = [] then Inr (Name n, n)
          else Inr (caller n @ '':'' @ Name n, n))"

text \<open>\<^verbatim>\<open>func (n *node) source() string\<close>.\<close>

definition source :: "'v node option \<Rightarrow> panic + string \<times> 'v node" where
  "source p =
     (case p of
        None \<Rightarrow> Inl NilDereference
      | Some n \<Rightarrow>
          if setSource n = [] then Inr (noSource, n)
          else Inr (setSource n, n))"

text \<open>
  \<^verbatim>\<open>type OptNode func(*node)\<close>: a modifier receives the pointer and returns nothing; the
  model returns the state in which it leaves the node, or the panic.
\<close>

type_synonym 'v OptNode = "'v node option \<Rightarrow> panic + 'v node"

definition Alias :: "string \<Rightarrow> 'v OptNode" where
  "Alias alias p =
     (case p of
        None \<Rightarrow> Inl NilDereference
      | Some n \<Rightarrow> Inr (n\<lparr>Aliases := Aliases n @ [alias]\<rparr>))"

definition Secret :: "'v OptNode" where
  "Secret p =
     (case p of
        None \<Rightarrow> Inl NilDereference
      | Some n \<Rightarrow> Inr (n\<lparr>isSecret := True\<rparr>))"

definition Required :: "'v OptNode" where
  "Required p =
     (case p of
        None \<Rightarrow> Inl NilDereference
      | Some n \<Rightarrow> Inr (n\<lparr>isRequired := True\<rparr>))"

text \<open>
  Modifiers applied one after another to the same node, in the order given, as
  \<^verbatim>\<open>for _, opt := range opts { opt(n) }\<close> does: each one sees the node as the previous one
  left it, and a panic ends the run.
\<close>

fun applyInOrder :: "'v OptNode list \<Rightarrow> 'v node \<Rightarrow> panic + 'v node" where
  "applyInOrder [] n = Inr n"
| "applyInOrder (opt # rest) n =
     (case opt (Some n) of
        Inl e \<Rightarrow> Inl e
      | Inr n' \<Rightarrow> applyInOrder rest n')"

text \<open>
  Modelled from the spec: the type \<^verbatim>\<open>Grp\<close> is not in node.go. The spec describes a Group as
  "a reusable namespace descriptor holding a key prefix and a set of modifiers to
  cascade"; the modifiers are kept in their declared order.
\<close>

record 'v Grp =
  prefix :: string
  opts :: "'v OptNode list"

text \<open>
  Modelled from the spec: the method \<^verbatim>\<open>key\<close> of \<^verbatim>\<open>Grp\<close> is not in node.go. The spec:
  "returns the qualified name, conventionally prefix + "." + localName".
\<close>

definition key :: "'v Grp \<Rightarrow> string \<Rightarrow> string" where
  "key g localName = prefix g @ ''.'' @ localName"

text \<open>
  Modelled from the spec: the method \<^verbatim>\<open>applyOpts\<close> of \<^verbatim>\<open>Grp\<close> is not in node.go. The spec:
  "cascades the Group's own stored Option Modifiers onto n, in the Group's declared
  order". \<^verbatim>\<open>Group\<close> calls it after it has read and written \<^verbatim>\<open>n.Name\<close>, so the node it
  receives is not nil.
\<close>

definition applyOpts :: "'v Grp \<Rightarrow> 'v node \<Rightarrow> panic + 'v node" where
  "applyOpts g n = applyInOrder (opts g) n"

text \<open>
  \<^verbatim>\<open>func Group(g *Grp) OptNode\<close>: \<^verbatim>\<open>n.Name = g.key(n.Name)\<close>, then \<^verbatim>\<open>g.applyOpts(n)\<close>.
  The group comes through a pointer too. The assignment reads \<^verbatim>\<open>n.Name\<close> first, so a nil
  node panics there. \<^verbatim>\<open>key\<close> reads the prefix through \<open>g\<close> (as the spec describes it),
  so with a nil group the call panics, before anything is written to the node.
  \<open>key\<close> and \<open>applyOpts\<close> above are the two methods on the group that \<open>g\<close> points to.
\<close>

definition Group :: "'v Grp option \<Rightarrow> 'v OptNode" where
  "Group g p =
     (case p of
        None \<Rightarrow> Inl NilDereference
      | Some n \<Rightarrow>
          (case g of
             None \<Rightarrow> Inl NilDereference
           | Some grp \<Rightarrow> applyOpts grp (n\<lparr>Name := key grp (Name n)\<rparr>)))"

text \<open>
  The modifiers that can be built from the four constructors of node.go: an alias, the
  two flags, and a group (not nil) whose cascaded modifiers are built that way too.
\<close>

inductive builtin :: "'v OptNode \<Rightarrow> bool" where
  builtin_Alias: "builtin (Alias a)"
| builtin_Secret: "builtin Secret"
| builtin_Required: "builtin Required"
| builtin_Group: "(\<And>opt. opt \<in> set (opts g) \<Longrightarrow> builtin opt) \<Longrightarrow> builtin (Group (Some g))"

text \<open>The three modifiers that write a single field.\<close>

inductive plain :: "'v OptNode \<Rightarrow> bool" where
  plain_Alias: "plain (Alias a)"
| plain_Secret: "plain Secret"
| plain_Required: "plain Required"

text \<open>A node as a test would declare it, used for the concrete instances below.\<close>

definition exampleNode :: "string \<Rightarrow> unit node" where
  "exampleNode name =
     \<lparr>Name = name, Description = ''help'', Aliases = [], Value = (),
      setSource = [], isSecret = False, isRequired = False, caller = []\<rparr>"

text \<open>
  A modifier that reads the name it finds: it copies \<open>Name\<close> into \<open>Description\<close>.
  It is not one of node.go's; a group that cascades it shows which name a cascaded
  modifier sees.
\<close>

definition noteName :: "unit OptNode" where
  "noteName p =
     (case p of
        None \<Rightarrow> Inl NilDereference
      | Some n \<Rightarrow> Inr (n\<lparr>Description := Name n\<rparr>))"

section \<open>Runs of modifiers\<close>

text \<open>Through a nil node pointer every function of the file panics.\<close>

lemma nil_node_panics:
  "pathName None = Inl NilDereference \<and> source None = Inl NilDereference \<and>
   Alias a None = Inl NilDereference \<and> Secret None = Inl NilDereference \<and>
   Required None = Inl NilDereference \<and> Group g None = Inl NilDereference"
  by (simp add: pathName_def source_def Alias_def Secret_def Required_def Group_def)

text \<open>Group of a nil group panics whatever the node.\<close>

lemma nil_group_panics:
  "Group None p = Inl NilDereference"
  by (simp add: Group_def split: option.splits)

lemma applyInOrder_Secret:
  "applyInOrder (replicate (Suc k) Secret) n = Inr (n\<lparr>isSecret := True\<rparr>)"
  by (induction k arbitrary: n) (simp_all add: Secret_def)

lemma applyInOrder_Required:
  "applyInOrder (replicate (Suc k) Required) n = Inr (n\<lparr>isRequired := True\<rparr>)"
  by (induction k arbitrary: n) (simp_all add: Required_def)

text \<open>
  A property that every modifier of a run keeps, without panicking, is kept by the run.
\<close>

lemma applyInOrder_keeps:
  assumes "\<And>opt n. opt \<in> set os \<Longrightarrow> P n \<Longrightarrow> \<exists>n'. opt (Some n) = Inr n' \<and> P n'"
    and "P n"
  shows "\<exists>n'. applyInOrder os n = Inr n' \<and> P n'"
  using assms
proof (induction os arbitrary: n)
  case Nil
  then show ?case by simp
next
  case (Cons opt rest)
  from Cons.prems obtain n1 where n1: "opt (Some n) = Inr n1" "P n1"
    by (meson list.set_intros(1))
  have "\<exists>n'. applyInOrder rest n1 = Inr n' \<and> P n'"
    by (rule Cons.IH) (use Cons.prems n1 in auto)
  with n1 show ?case by simp
qed

text \<open>A run of modifiers that all return on every node returns.\<close>

lemma applyInOrder_runs:
  assumes "\<And>opt k. opt \<in> set os \<Longrightarrow> \<exists>k'. opt (Some k) = Inr k'"
  shows "\<exists>n'. applyInOrder os n = Inr n'"
  using applyInOrder_keeps [where os = os and P = "\<lambda>_. True" and n = n] assms by simp

text \<open>
  A built-in modifier returns on every node and clears neither flag; for a group this
  goes through its cascade, by induction on how the modifier was built.
\<close>

lemma builtin_keeps_flags:
  fixes n :: "'v node"
  shows "builtin m \<Longrightarrow>
   \<exists>n'. m (Some n) = Inr n' \<and> (isSecret n \<longrightarrow> isSecret n') \<and> (isRequired n \<longrightarrow> isRequired n')"
proof (induction arbitrary: n rule: builtin.induct)
  case (builtin_Group g)
  let ?n0 = "n\<lparr>Name := key g (Name n)\<rparr>"
  let ?P = "\<lambda>k::'v node. (isSecret n \<longrightarrow> isSecret k) \<and> (isRequired n \<longrightarrow> isRequired k)"
  have "\<exists>n'. applyInOrder (opts g) ?n0 = Inr n' \<and> ?P n'"
  proof (rule applyInOrder_keeps)
    show "?P ?n0" by simp
  next
    fix opt k assume "opt \<in> set (opts g)" "?P k"
    with builtin_Group.IH [of opt k] show "\<exists>n'. opt (Some k) = Inr n' \<and> ?P n'"
      by auto
  qed
  then show ?case by (simp add: Group_def applyOpts_def)
qed (simp_all add: Alias_def Secret_def Required_def)

text \<open>No built-in modifier writes the field Value.\<close>

lemma builtin_keeps_Value:
  fixes n :: "'v node"
  shows "builtin m \<Longrightarrow> \<exists>n'. m (Some n) = Inr n' \<and> Value n' = Value n"
proof (induction arbitrary: n rule: builtin.induct)
  case (builtin_Group g)
  let ?n0 = "n\<lparr>Name := key g (Name n)\<rparr>"
  let ?P = "\<lambda>k::'v node. Value k = Value n"
  have "\<exists>n'. applyInOrder (opts g) ?n0 = Inr n' \<and> ?P n'"
  proof (rule applyInOrder_keeps)
    show "?P ?n0" by simp
  next
    fix opt k assume "opt \<in> set (opts g)" "?P k"
    with builtin_Group.IH [of opt k] show "\<exists>n'. opt (Some k) = Inr n' \<and> ?P n'"
      by auto
  qed
  then show ?case by (simp add: Group_def applyOpts_def)
qed (simp_all add: Alias_def Secret_def Required_def)

lemma builtin_GroupI:
  "\<forall>opt \<in> set (opts g). builtin opt \<Longrightarrow> builtin (Group (Some g))"
  by (simp add: builtin_Group)

lemma plain_keeps_Name:
  "plain m \<Longrightarrow> \<exists>n'. m (Some n) = Inr n' \<and> Name n' = Name n"
  by (induction rule: plain.induct) (simp_all add: Alias_def Secret_def Required_def)

lemma applyInOrder_plain_Name:
  fixes n :: "'v node"
  assumes "\<And>opt. opt \<in> set os \<Longrightarrow> plain opt"
  shows "\<exists>n'. applyInOrder os n = Inr n' \<and> Name n' = Name n"
proof (rule applyInOrder_keeps [where P = "\<lambda>k::'v node. Name k = Name n"])
  fix opt and k :: "'v node"
  assume "opt \<in> set os" "Name k = Name n"
  with plain_keeps_Name [of opt k] assms show "\<exists>n'. opt (Some k) = Inr n' \<and> Name n' = Name n"
    by auto
qed simp

lemma Group_plain_Name:
  fixes n :: "'v node"
  assumes "\<And>opt. opt \<in> set (opts g) \<Longrightarrow> plain opt"
  shows "\<exists>n'. Group (Some g) (Some n) = Inr n' \<and> Name n' = prefix g @ ''.'' @ Name n"
  using applyInOrder_plain_Name [where os = "opts g" and n = "n\<lparr>Name := key g (Name n)\<rparr>"] assms
  by (simp add: Group_def applyOpts_def key_def)

section \<open>pathName and source\<close>

text \<open>
  C1. For every node, pathName returns the node's Name when the caller field is the
  empty string, and caller followed by ":" and Name when caller is not empty.
\<close>

theorem pathName_result:
  "(caller n = [] \<longrightarrow> pathName (Some n) = Inr (Name n, n)) \<and>
   (caller n \<noteq> [] \<longrightarrow> pathName (Some n) = Inr (caller n @ '':'' @ Name n, n))"
  by (simp add: pathName_def)

theorem pathName_result_witness:
  "caller (exampleNode ''port'') = [] \<and>
   pathName (Some (exampleNode ''port'')) = Inr (''port'', exampleNode ''port'') \<and>
   caller ((exampleNode ''port'')\<lparr>caller := ''main.go''\<rparr>) \<noteq> [] \<and>
   pathName (Some ((exampleNode ''port'')\<lparr>caller := ''main.go''\<rparr>))
     = Inr (''main.go:port'', (exampleNode ''port'')\<lparr>caller := ''main.go''\<rparr>)"
  using pathName_result [of "exampleNode ''port''"]
    pathName_result [of "(exampleNode ''port'')\<lparr>caller := ''main.go''\<rparr>"]
  by (simp add: exampleNode_def)

text \<open>
  C2. For every node, source returns the setSource field when it is not empty and the
  literal "default" when it is empty; a node whose setSource was never written, as a
  freshly constructed one, has source "default".
\<close>

theorem source_result:
  "(setSource n \<noteq> [] \<longrightarrow> source (Some n) = Inr (setSource n, n)) \<and>
   (setSource n = [] \<longrightarrow> source (Some n) = Inr (''default'', n))"
  by (simp add: source_def noSource_def)

theorem source_result_witness:
  "setSource ((exampleNode ''port'')\<lparr>setSource := ''env''\<rparr>) \<noteq> [] \<and>
   source (Some ((exampleNode ''port'')\<lparr>setSource := ''env''\<rparr>))
     = Inr (''env'', (exampleNode ''port'')\<lparr>setSource := ''env''\<rparr>) \<and>
   setSource (exampleNode ''port'') = [] \<and>
   source (Some (exampleNode ''port'')) = Inr (''default'', exampleNode ''port'')"
  using source_result [of "(exampleNode ''port'')\<lparr>setSource := ''env''\<rparr>"]
    source_result [of "exampleNode ''port''"]
  by (simp add: exampleNode_def)

section \<open>Group\<close>

text \<open>
  C3. Group of a group g applied to a node does two things in this order: it replaces Name
  by key g Name, and then runs applyOpts g on the renamed node. With nothing to cascade the
  renamed node is the result; otherwise the first cascaded modifier receives the node
  that already carries the new name, and the others follow on what it returns.
\<close>

theorem Group_steps:
  "Group (Some g) (Some n) = applyOpts g (n\<lparr>Name := key g (Name n)\<rparr>) \<and>
   (opts g = [] \<longrightarrow> Group (Some g) (Some n) = Inr (n\<lparr>Name := key g (Name n)\<rparr>)) \<and>
   (\<forall>opt rest. opts g = opt # rest \<longrightarrow>
      Group (Some g) (Some n) =
        (case opt (Some (n\<lparr>Name := key g (Name n)\<rparr>)) of
           Inl e \<Rightarrow> Inl e
         | Inr n' \<Rightarrow> applyInOrder rest n'))"
  by (simp add: Group_def applyOpts_def)

theorem Group_steps_witness:
  "opts \<lparr>prefix = ''db'', opts = [noteName, Required]\<rparr> = noteName # [Required] \<and>
   Group (Some \<lparr>prefix = ''db'', opts = [noteName, Required]\<rparr>) (Some (exampleNode ''port''))
     = Inr ((exampleNode ''db.port'')\<lparr>Description := ''db.port'', isRequired := True\<rparr>) \<and>
   opts \<lparr>prefix = ''db'', opts = []\<rparr> = ([] :: unit OptNode list) \<and>
   Group (Some \<lparr>prefix = ''db'', opts = []\<rparr>) (Some (exampleNode ''port''))
     = Inr (exampleNode ''db.port'')"
  using Group_steps [of "\<lparr>prefix = ''db'', opts = [noteName, Required]\<rparr>" "exampleNode ''port''"]
    Group_steps [of "\<lparr>prefix = ''db'', opts = []\<rparr>" "exampleNode ''port''"]
  by (simp add: exampleNode_def key_def applyOpts_def noteName_def Required_def)

text \<open>
  C4. For a node named "x", applying Group g1 with prefix "a" and then Group g2 with
  prefix "b" returns a node named "b.a.x": the later group wraps the name the earlier one
  left. The groups carry what the spec gives a group to cascade, Alias, Secret and
  Required modifiers (or none), and key is prefix, ".", local name.
\<close>

theorem nested_groups_name:
  fixes n :: "'v node"
  assumes "Name n = ''x''" and "prefix g1 = ''a''" and "prefix g2 = ''b''"
    and "\<forall>opt \<in> set (opts g1) \<union> set (opts g2). plain opt"
  shows "\<exists>n'. applyInOrder [Group (Some g1), Group (Some g2)] n = Inr n' \<and> Name n' = ''b.a.x''"
proof -
  from assms(4) obtain n1 where n1: "Group (Some g1) (Some n) = Inr n1" "Name n1 = prefix g1 @ ''.'' @ Name n"
    using Group_plain_Name [of g1 n] by auto
  from assms(4) obtain n2 where n2: "Group (Some g2) (Some n1) = Inr n2" "Name n2 = prefix g2 @ ''.'' @ Name n1"
    using Group_plain_Name [of g2 n1] by auto
  from n1 n2 assms(1-3) show ?thesis by simp
qed

theorem nested_groups_name_witness:
  "Name (exampleNode ''x'') = ''x'' \<and>
   prefix \<lparr>prefix = ''a'', opts = [Alias ''p'', Secret :: unit OptNode]\<rparr> = ''a'' \<and>
   prefix \<lparr>prefix = ''b'', opts = [Required :: unit OptNode]\<rparr> = ''b'' \<and>
   plain (Alias ''p'' :: unit OptNode) \<and> plain (Secret :: unit OptNode) \<and>
   plain (Required :: unit OptNode) \<and>
   (\<exists>n'. applyInOrder
            [Group (Some \<lparr>prefix = ''a'', opts = [Alias ''p'', Secret]\<rparr>),
             Group (Some \<lparr>prefix = ''b'', opts = [Required]\<rparr>)]
            (exampleNode ''x'') = Inr n' \<and> Name n' = ''b.a.x'')"
  using nested_groups_name [of "exampleNode ''x''"
      "\<lparr>prefix = ''a'', opts = [Alias ''p'', Secret]\<rparr>" "\<lparr>prefix = ''b'', opts = [Required]\<rparr>"]
  by (simp add: exampleNode_def plain.intros)

section \<open>Alias, Secret and Required\<close>

text \<open>
  C5. Applying Secret one or more times to a node gives the node with isSecret true,
  whatever the number of times, and likewise Required with isRequired. No built-in
  modifier (Alias, Secret, Required, or Group of a group of built-in modifiers) turns a true
  isSecret or isRequired into false.
\<close>

theorem flags_never_reset:
  fixes n :: "'v node"
  shows
  "(0 < k \<longrightarrow> applyInOrder (replicate k Secret) n = Inr (n\<lparr>isSecret := True\<rparr>)) \<and>
   (0 < k \<longrightarrow> applyInOrder (replicate k Required) n = Inr (n\<lparr>isRequired := True\<rparr>)) \<and>
   (builtin m \<and> isSecret n \<longrightarrow> (\<exists>n'. m (Some n) = Inr n' \<and> isSecret n')) \<and>
   (builtin m \<and> isRequired n \<longrightarrow> (\<exists>n'. m (Some n) = Inr n' \<and> isRequired n'))"
proof -
  have "applyInOrder (replicate k Secret) n = Inr (n\<lparr>isSecret := True\<rparr>)" if "0 < k"
    using that applyInOrder_Secret [of "k - 1" n] by simp
  moreover
  have "applyInOrder (replicate k Required) n = Inr (n\<lparr>isRequired := True\<rparr>)" if "0 < k"
    using that applyInOrder_Required [of "k - 1" n] by simp
  moreover
  have "\<exists>n'. m (Some n) = Inr n' \<and> isSecret n'" if "builtin m" "isSecret n"
    using that builtin_keeps_flags [of m n] by blast
  moreover
  have "\<exists>n'. m (Some n) = Inr n' \<and> isRequired n'" if "builtin m" "isRequired n"
    using that builtin_keeps_flags [of m n] by blast
  ultimately show ?thesis by blast
qed

theorem flags_never_reset_witness:
  "(0::nat) < 3 \<and>
   applyInOrder (replicate 3 Secret) (exampleNode ''password'')
     = Inr ((exampleNode ''password'')\<lparr>isSecret := True\<rparr>) \<and>
   applyInOrder (replicate 3 Required) (exampleNode ''password'')
     = Inr ((exampleNode ''password'')\<lparr>isRequired := True\<rparr>) \<and>
   builtin (Group (Some \<lparr>prefix = ''db'', opts = [Alias ''p'', Required :: unit OptNode]\<rparr>)) \<and>
   isSecret ((exampleNode ''password'')\<lparr>isSecret := True, isRequired := True\<rparr>) \<and>
   isRequired ((exampleNode ''password'')\<lparr>isSecret := True, isRequired := True\<rparr>) \<and>
   Group (Some \<lparr>prefix = ''db'', opts = [Alias ''p'', Required]\<rparr>)
       (Some ((exampleNode ''password'')\<lparr>isSecret := True, isRequired := True\<rparr>))
     = Inr ((exampleNode ''db.password'')
              \<lparr>Aliases := [''p''], isSecret := True, isRequired := True\<rparr>)"
  using flags_never_reset [of 3 "exampleNode ''password''" Secret]
    flags_never_reset [of 1 "(exampleNode ''password'')\<lparr>isSecret := True, isRequired := True\<rparr>"
      "Group (Some \<lparr>prefix = ''db'', opts = [Alias ''p'', Required]\<rparr>)"]
  by (simp add: builtin_GroupI builtin_Alias builtin_Required exampleNode_def
      Group_def applyOpts_def key_def Alias_def Required_def)

text \<open>
  C6. Alias p followed by Alias q appends p and then q to the aliases the node already
  has; the strings are not inspected, so empty and repeated ones are appended as they are.
\<close>

theorem Alias_twice:
  "applyInOrder [Alias p, Alias q] n = Inr (n\<lparr>Aliases := Aliases n @ [p, q]\<rparr>)"
  by (simp add: Alias_def)

theorem Alias_twice_witness:
  "applyInOrder [Alias ''p'', Alias ''q''] (exampleNode ''port'')
     = Inr ((exampleNode ''port'')\<lparr>Aliases := [''p'', ''q'']\<rparr>) \<and>
   applyInOrder [Alias [], Alias []] ((exampleNode ''port'')\<lparr>Aliases := [[], ''p'']\<rparr>)
     = Inr ((exampleNode ''port'')\<lparr>Aliases := [[], ''p'', [], []]\<rparr>)"
  using Alias_twice [of "''p''" "''q''" "exampleNode ''port''"]
    Alias_twice [of "[]" "[]" "(exampleNode ''port'')\<lparr>Aliases := [[], ''p'']\<rparr>"]
  by (simp add: exampleNode_def)

text \<open>
  C7. Any two of the modifiers Alias a, Secret and Required (one alias argument, so two
  different aliases are not reordered) give the same node in either order.
\<close>

theorem plain_modifiers_commute:
  fixes n :: "'v node"
  assumes "m1 = Alias a \<or> m1 = Secret \<or> m1 = Required"
    and "m2 = Alias a \<or> m2 = Secret \<or> m2 = Required"
  shows "\<exists>n'. applyInOrder [m1, m2] n = Inr n' \<and> applyInOrder [m2, m1] n = Inr n'"
  using assms by (auto simp add: Alias_def Secret_def Required_def)

theorem plain_modifiers_commute_witness:
  "(\<exists>n'. applyInOrder [Alias ''p'', Required] (exampleNode ''port'') = Inr n' \<and>
         applyInOrder [Required, Alias ''p''] (exampleNode ''port'') = Inr n')"
  using plain_modifiers_commute [of "Alias ''p''" "''p''" Required "exampleNode ''port''"]
  by simp

section \<open>Panics and effects\<close>

text \<open>
  C8, as stated, fails: Group of a nil group panics on every node, and so does Group of
  a group that cascades such a modifier.
\<close>

theorem Group_nil_counterexample:
  "Group None (Some (exampleNode ''port'')) = Inl NilDereference \<and>
   Group (Some \<lparr>prefix = ''db'', opts = [Secret, Group None]\<rparr>) (Some (exampleNode ''port''))
     = Inl NilDereference"
  by (simp add: Group_def applyOpts_def Secret_def)

text \<open>
  C8, amended. On a node, pathName, source, Alias, Secret and Required do not panic, and
  neither does Group of a group (not nil) whose cascaded modifiers do not panic, as is
  the case of every built-in modifier. None of them has an error result, and none
  touches the Value: pathName and source leave the node as it is, and the modifiers
  leave the field Value as it is, so the Set method is not called by any of them.
\<close>

theorem core_returns_on_nodes:
  fixes n :: "'v node"
  shows
  "(\<exists>s. pathName (Some n) = Inr (s, n)) \<and>
   (\<exists>s. source (Some n) = Inr (s, n)) \<and>
   (\<exists>n'. Alias a (Some n) = Inr n' \<and> Value n' = Value n) \<and>
   (\<exists>n'. Secret (Some n) = Inr n' \<and> Value n' = Value n) \<and>
   (\<exists>n'. Required (Some n) = Inr n' \<and> Value n' = Value n) \<and>
   ((\<forall>opt \<in> set (opts g). \<forall>k. \<exists>k'. opt (Some k) = Inr k') \<longrightarrow>
      (\<exists>n'. Group (Some g) (Some n) = Inr n')) \<and>
   (builtin m \<longrightarrow> (\<exists>n'. m (Some n) = Inr n' \<and> Value n' = Value n))"
proof -
  have "\<exists>n'. Group (Some g) (Some n) = Inr n'"
    if "\<forall>opt \<in> set (opts g). \<forall>k. \<exists>k'. opt (Some k) = Inr k'"
    using that applyInOrder_runs [of "opts g" "n\<lparr>Name := key g (Name n)\<rparr>"]
    by (simp add: Group_def applyOpts_def)
  moreover
  have "\<exists>n'. m (Some n) = Inr n' \<and> Value n' = Value n" if "builtin m"
    using that by (rule builtin_keeps_Value)
  ultimately show ?thesis
    by (simp add: pathName_def source_def Alias_def Secret_def Required_def)
qed

theorem core_returns_on_nodes_witness:
  "pathName (Some (exampleNode ''port'')) = Inr (''port'', exampleNode ''port'') \<and>
   source (Some (exampleNode ''port'')) = Inr (''default'', exampleNode ''port'') \<and>
   Alias ''p'' (Some (exampleNode ''port'')) = Inr ((exampleNode ''port'')\<lparr>Aliases := [''p'']\<rparr>) \<and>
   Secret (Some (exampleNode ''port'')) = Inr ((exampleNode ''port'')\<lparr>isSecret := True\<rparr>) \<and>
   Required (Some (exampleNode ''port'')) = Inr ((exampleNode ''port'')\<lparr>isRequired := True\<rparr>) \<and>
   (\<forall>k :: unit node. \<exists>k'. Secret (Some k) = Inr k') \<and>
   (\<forall>k :: unit node. \<exists>k'. Group (Some \<lparr>prefix = ''tls'', opts = [Required]\<rparr>) (Some k) = Inr k') \<and>
   builtin (Group (Some \<lparr>prefix = ''db'',
              opts = [Secret, Group (Some \<lparr>prefix = ''tls'', opts = [Required :: unit OptNode]\<rparr>)]\<rparr>)) \<and>
   Group (Some \<lparr>prefix = ''db'', opts = [Secret, Group (Some \<lparr>prefix = ''tls'', opts = [Required]\<rparr>)]\<rparr>)
       (Some (exampleNode ''port''))
     = Inr ((exampleNode ''tls.db.port'')\<lparr>isSecret := True, isRequired := True\<rparr>)"
  using core_returns_on_nodes [of "exampleNode ''port''" "''p''"
      "\<lparr>prefix = ''db'', opts = [Secret, Group (Some \<lparr>prefix = ''tls'', opts = [Required]\<rparr>)]\<rparr>"
      "Group (Some \<lparr>prefix = ''db'',
         opts = [Secret, Group (Some \<lparr>prefix = ''tls'', opts = [Required]\<rparr>)]\<rparr>)"]
  by (simp add: builtin_GroupI builtin_Secret builtin_Required exampleNode_def
      pathName_def source_def noSource_def Alias_def Secret_def Required_def
      Group_def applyOpts_def key_def)

text \<open>
  C9. pathName and source leave the node as they found it (the same record, so every
  field is unchanged), and a second call on the node they leave returns the same string.
\<close>

theorem readers_leave_node:
  "(pathName (Some n) = Inr (s, n') \<longrightarrow> n' = n \<and> pathName (Some n') = Inr (s, n')) \<and>
   (source (Some n) = Inr (t, n'') \<longrightarrow> n'' = n \<and> source (Some n'') = Inr (t, n''))"
  by (auto simp add: pathName_def source_def split: if_splits)

theorem readers_leave_node_witness:
  "pathName (Some ((exampleNode ''port'')\<lparr>caller := ''main.go''\<rparr>))
     = Inr (''main.go:port'', (exampleNode ''port'')\<lparr>caller := ''main.go''\<rparr>) \<and>
   source (Some ((exampleNode ''port'')\<lparr>caller := ''main.go''\<rparr>))
     = Inr (''default'', (exampleNode ''port'')\<lparr>caller := ''main.go''\<rparr>)"
  using readers_leave_node [of "(exampleNode ''port'')\<lparr>caller := ''main.go''\<rparr>" "''main.go:port''"
      "(exampleNode ''port'')\<lparr>caller := ''main.go''\<rparr>" "''default''"
      "(exampleNode ''port'')\<lparr>caller := ''main.go''\<rparr>"]
  by (simp add: exampleNode_def pathName_def source_def noSource_def)

text \<open>
  C10. Alias a writes only Aliases, Secret only isSecret, Required only isRequired: the
  other fields, among them Name, Description, Value, setSource and caller, are as before.
\<close>

theorem modifier_frames:
  "(\<exists>n'. Alias a (Some n) = Inr n' \<and> Aliases n' = Aliases n @ [a] \<and>
      Name n' = Name n \<and> Description n' = Description n \<and> Value n' = Value n \<and>
      setSource n' = setSource n \<and> isSecret n' = isSecret n \<and>
      isRequired n' = isRequired n \<and> caller n' = caller n) \<and>
   (\<exists>n'. Secret (Some n) = Inr n' \<and> isSecret n' \<and>
      Name n' = Name n \<and> Description n' = Description n \<and> Aliases n' = Aliases n \<and>
      Value n' = Value n \<and> setSource n' = setSource n \<and>
      isRequired n' = isRequired n \<and> caller n' = caller n) \<and>
   (\<exists>n'. Required (Some n) = Inr n' \<and> isRequired n' \<and>
      Name n' = Name n \<and> Description n' = Description n \<and> Aliases n' = Aliases n \<and>
      Value n' = Value n \<and> setSource n' = setSource n \<and>
      isSecret n' = isSecret n \<and> caller n' = caller n)"
  by (simp add: Alias_def Secret_def Required_def)

theorem modifier_frames_witness:
  "Alias ''p'' (Some ((exampleNode ''port'')\<lparr>setSource := ''env'', caller := ''main.go''\<rparr>))
     = Inr ((exampleNode ''port'')
              \<lparr>Aliases := [''p''], setSource := ''env'', caller := ''main.go''\<rparr>) \<and>
   Secret (Some ((exampleNode ''port'')\<lparr>setSource := ''env'', caller := ''main.go''\<rparr>))
     = Inr ((exampleNode ''port'')
              \<lparr>setSource := ''env'', isSecret := True, caller := ''main.go''\<rparr>) \<and>
   Required (Some ((exampleNode ''port'')\<lparr>setSource := ''env'', caller := ''main.go''\<rparr>))
     = Inr ((exampleNode ''port'')
              \<lparr>setSource := ''env'', isRequired := True, caller := ''main.go''\<rparr>)"
  using modifier_frames [of "''p''"
      "(exampleNode ''port'')\<lparr>setSource := ''env'', caller := ''main.go''\<rparr>"]
  by (simp add: exampleNode_def Alias_def Secret_def Required_def)

end
